theory Spec2Isabelle
  imports Complex_Main "HOL-Library.Sublist"
begin

section \<open>The signal bus (janim/utils/signal.py)\<close>

text \<open>
  A callable is named by its qualified name and an object by its identity (what
  \<^verbatim>\<open>id()\<close> returns). The registry of a \<^verbatim>\<open>Signal\<close> is the nested
  \<^verbatim>\<open>defaultdict\<close> of the source: a key gives an \<^verbatim>\<open>_AllSlots\<close>, whose two
  dictionaries are indexed by the full qualified name of a class and by the identity
  of a sender.
\<close>

type_synonym key = string
type_synonym full_qualname = string
type_synonym func = string
type_synonym obj = nat
type_synonym kwargs = "(string \<times> obj) list"

record SelfSlotWithRecurse =
  sr_func :: func
  recurse_up :: bool
  recurse_down :: bool

record RefreshSlot =
  rs_obj :: obj
  rs_func :: func

record SelfSlots =
  self_normal_slots :: "func list"
  self_refresh_slots :: "func list"
  self_refresh_slots_with_recurse :: "SelfSlotWithRecurse list"

record Slots =
  normal_slots :: "func list"
  refresh_slots :: "RefreshSlot list"

record AllSlots =
  self_slots_dict :: "full_qualname \<rightharpoonup> SelfSlots"
  slots_dict :: "obj \<rightharpoonup> Slots"

record Signal =
  slots :: "key \<rightharpoonup> AllSlots"

text \<open>
  The sender of an emission: its identity, the full qualified names of the classes of
  \<^verbatim>\<open>sender.__class__.mro()\<close> in that order, and the two \<^verbatim>\<open>isinstance\<close> tests
  of the pre-check.
\<close>

record Sender =
  ident :: obj
  mro :: "full_qualname list"
  is_relation :: bool
  is_component :: bool

datatype error = TypeError | OSError | UpdaterError string

text \<open>
  What an emission does to the outside: a call \<^verbatim>\<open>func(*args, **kwargs)\<close> with its
  positional and keyword arguments, \<^verbatim>\<open>obj.mark_refresh(func)\<close>, and
  \<^verbatim>\<open>obj.mark_refresh(func, recurse_up=u, recurse_down=d)\<close>. The callables are
  opaque: they are taken to return, and not to register on the signal being emitted.
\<close>

datatype event =
  Call func "obj list" kwargs
  | MarkRefresh obj func
  | MarkRefreshRecurse obj func bool bool

text \<open>The fresh values a \<^verbatim>\<open>defaultdict\<close> makes for a missing key.\<close>

definition new_SelfSlots :: SelfSlots where
  "new_SelfSlots =
     \<lparr>self_normal_slots = [], self_refresh_slots = [], self_refresh_slots_with_recurse = []\<rparr>"

definition new_Slots :: Slots where
  "new_Slots = \<lparr>normal_slots = [], refresh_slots = []\<rparr>"

definition new_AllSlots :: AllSlots where
  "new_AllSlots = \<lparr>self_slots_dict = Map.empty, slots_dict = Map.empty\<rparr>"

definition new_Signal :: Signal where
  "new_Signal = \<lparr>slots = Map.empty\<rparr>"

definition get_all_slots :: "Signal \<Rightarrow> key \<Rightarrow> AllSlots" where
  "get_all_slots sg k = (case slots sg k of None \<Rightarrow> new_AllSlots | Some a \<Rightarrow> a)"

definition get_self_slots :: "AllSlots \<Rightarrow> full_qualname \<Rightarrow> SelfSlots" where
  "get_self_slots a q = (case self_slots_dict a q of None \<Rightarrow> new_SelfSlots | Some sl \<Rightarrow> sl)"

definition get_slots :: "AllSlots \<Rightarrow> obj \<Rightarrow> Slots" where
  "get_slots a i = (case slots_dict a i of None \<Rightarrow> new_Slots | Some sl \<Rightarrow> sl)"

subsection \<open>Registration\<close>

text \<open>
  The three decorators take the full qualified name of the class whose body is being
  executed (read from the caller's frame); \<^verbatim>\<open>connect\<close> and
  \<^verbatim>\<open>connect_refresh\<close> take the sender, of which only the identity is used.
\<close>

definition self_slot :: "Signal \<Rightarrow> full_qualname \<Rightarrow> func \<Rightarrow> key \<Rightarrow> Signal" where
  "self_slot sg q f k =
     (let all_slots = get_all_slots sg k;
          self_slots = get_self_slots all_slots q;
          self_slots' = self_slots\<lparr>self_normal_slots := self_normal_slots self_slots @ [f]\<rparr>
      in sg\<lparr>slots := (slots sg)(k \<mapsto>
           all_slots\<lparr>self_slots_dict := (self_slots_dict all_slots)(q \<mapsto> self_slots')\<rparr>)\<rparr>)"

definition self_refresh :: "Signal \<Rightarrow> full_qualname \<Rightarrow> func \<Rightarrow> key \<Rightarrow> Signal" where
  "self_refresh sg q f k =
     (let all_slots = get_all_slots sg k;
          self_slots = get_self_slots all_slots q;
          self_slots' = self_slots\<lparr>self_refresh_slots := self_refresh_slots self_slots @ [f]\<rparr>
      in sg\<lparr>slots := (slots sg)(k \<mapsto>
           all_slots\<lparr>self_slots_dict := (self_slots_dict all_slots)(q \<mapsto> self_slots')\<rparr>)\<rparr>)"

definition self_refresh_with_recurse ::
  "Signal \<Rightarrow> full_qualname \<Rightarrow> func \<Rightarrow> bool \<Rightarrow> bool \<Rightarrow> key \<Rightarrow> Signal" where
  "self_refresh_with_recurse sg q f up down k =
     (let slot = \<lparr>sr_func = f, recurse_up = up, recurse_down = down\<rparr>;
          all_slots = get_all_slots sg k;
          self_slots = get_self_slots all_slots q;
          self_slots' = self_slots\<lparr>self_refresh_slots_with_recurse :=
                          self_refresh_slots_with_recurse self_slots @ [slot]\<rparr>
      in sg\<lparr>slots := (slots sg)(k \<mapsto>
           all_slots\<lparr>self_slots_dict := (self_slots_dict all_slots)(q \<mapsto> self_slots')\<rparr>)\<rparr>)"

definition connect :: "Signal \<Rightarrow> obj \<Rightarrow> func \<Rightarrow> key \<Rightarrow> Signal" where
  "connect sg sender_id f k =
     (let all_slots = get_all_slots sg k;
          sl = get_slots all_slots sender_id;
          sl' = sl\<lparr>normal_slots := normal_slots sl @ [f]\<rparr>
      in sg\<lparr>slots := (slots sg)(k \<mapsto>
           all_slots\<lparr>slots_dict := (slots_dict all_slots)(sender_id \<mapsto> sl')\<rparr>)\<rparr>)"

definition connect_refresh :: "Signal \<Rightarrow> obj \<Rightarrow> obj \<Rightarrow> func \<Rightarrow> key \<Rightarrow> Signal" where
  "connect_refresh sg sender_id ob f k =
     (let slot = \<lparr>rs_obj = ob, rs_func = f\<rparr>;
          all_slots = get_all_slots sg k;
          sl = get_slots all_slots sender_id;
          sl' = sl\<lparr>refresh_slots := refresh_slots sl @ [slot]\<rparr>
      in sg\<lparr>slots := (slots sg)(k \<mapsto>
           all_slots\<lparr>slots_dict := (slots_dict all_slots)(sender_id \<mapsto> sl')\<rparr>)\<rparr>)"

text \<open>A registration call as a value, so that a history of registrations is a list.\<close>

datatype registration =
  RegSelfSlot full_qualname func key
  | RegSelfRefresh full_qualname func key
  | RegSelfRefreshWithRecurse full_qualname func bool bool key
  | RegConnect obj func key
  | RegConnectRefresh obj obj func key

fun reg_key :: "registration \<Rightarrow> key" where
  "reg_key (RegSelfSlot q f k) = k"
| "reg_key (RegSelfRefresh q f k) = k"
| "reg_key (RegSelfRefreshWithRecurse q f up down k) = k"
| "reg_key (RegConnect i f k) = k"
| "reg_key (RegConnectRefresh i ob f k) = k"

fun register :: "Signal \<Rightarrow> registration \<Rightarrow> Signal" where
  "register sg (RegSelfSlot q f k) = self_slot sg q f k"
| "register sg (RegSelfRefresh q f k) = self_refresh sg q f k"
| "register sg (RegSelfRefreshWithRecurse q f up down k) =
     self_refresh_with_recurse sg q f up down k"
| "register sg (RegConnect i f k) = connect sg i f k"
| "register sg (RegConnectRefresh i ob f k) = connect_refresh sg i ob f k"

definition registered :: "registration list \<Rightarrow> Signal" where
  "registered regs = foldl register new_Signal regs"

subsection \<open>Emission\<close>

text \<open>
  The body of the loop over the MRO for one class that has an entry: the normal slots
  are called with the sender first, then the two kinds of refresh slots are marked on
  the sender.
\<close>

definition level_events :: "SelfSlots \<Rightarrow> Sender \<Rightarrow> obj list \<Rightarrow> kwargs \<Rightarrow> event list" where
  "level_events sl s args kw =
     map (\<lambda>f. Call f (ident s # args) kw) (self_normal_slots sl)
     @ map (\<lambda>f. MarkRefresh (ident s) f) (self_refresh_slots sl)
     @ map (\<lambda>r. MarkRefreshRecurse (ident s) (sr_func r) (recurse_up r) (recurse_down r))
         (self_refresh_slots_with_recurse sl)"

text \<open>
  The loop \<^verbatim>\<open>for cls in sender.__class__.mro()\<close>, with the events made so far. A
  class with no entry is skipped; the pre-check of a class with recursive refresh slots
  raises when the sender is neither a \<^verbatim>\<open>Relation\<close> nor a \<^verbatim>\<open>Component\<close>.
\<close>

fun emit_mro ::
  "AllSlots \<Rightarrow> Sender \<Rightarrow> obj list \<Rightarrow> kwargs \<Rightarrow> full_qualname list \<Rightarrow> event list
     \<Rightarrow> event list \<times> (error + unit)" where
  "emit_mro a s args kw [] evs = (evs, Inr ())"
| "emit_mro a s args kw (c # cs) evs =
     (case self_slots_dict a c of
        None \<Rightarrow> emit_mro a s args kw cs evs
      | Some sl \<Rightarrow>
          if self_refresh_slots_with_recurse sl \<noteq> [] \<and> \<not> is_relation s \<and> \<not> is_component s
          then (evs, Inl TypeError)
          else emit_mro a s args kw cs (evs @ level_events sl s args kw))"

text \<open>The part after the loop: the entry of \<^verbatim>\<open>slots_dict\<close> for the sender's identity.\<close>

definition emit_instance :: "AllSlots \<Rightarrow> Sender \<Rightarrow> obj list \<Rightarrow> kwargs \<Rightarrow> event list" where
  "emit_instance a s args kw =
     (case slots_dict a (ident s) of
        None \<Rightarrow> []
      | Some sl \<Rightarrow>
          map (\<lambda>f. Call f args kw) (normal_slots sl)
          @ map (\<lambda>r. MarkRefresh (rs_obj r) (rs_func r)) (refresh_slots sl))"

text \<open>
  \<^verbatim>\<open>Signal.emit(sender, *args, key=key, **kwargs)\<close>: the events in the order they
  happen, and how the call ends.
\<close>

definition emit ::
  "Signal \<Rightarrow> Sender \<Rightarrow> obj list \<Rightarrow> key \<Rightarrow> kwargs \<Rightarrow> event list \<times> (error + unit)" where
  "emit sg s args k kw =
     (case slots sg k of
        None \<Rightarrow> ([], Inr ())
      | Some a \<Rightarrow>
          (case emit_mro a s args kw (mro s) [] of
             (evs, Inl e) \<Rightarrow> (evs, Inl e)
           | (evs, Inr u) \<Rightarrow> (evs @ emit_instance a s args kw, Inr ())))"


subsection \<open>Reading an emission\<close>

text \<open>
  The events of one class of the MRO (none when the class has no entry), whether a class
  has recursive refresh slots, and whether its pre-check raises for a sender.
\<close>

definition class_events ::
  "AllSlots \<Rightarrow> Sender \<Rightarrow> obj list \<Rightarrow> kwargs \<Rightarrow> full_qualname \<Rightarrow> event list" where
  "class_events a s args kw c =
     (case self_slots_dict a c of None \<Rightarrow> [] | Some sl \<Rightarrow> level_events sl s args kw)"

definition has_recurse :: "AllSlots \<Rightarrow> full_qualname \<Rightarrow> bool" where
  "has_recurse a c =
     (case self_slots_dict a c of
        None \<Rightarrow> False
      | Some sl \<Rightarrow> self_refresh_slots_with_recurse sl \<noteq> [])"

definition rejects :: "AllSlots \<Rightarrow> Sender \<Rightarrow> full_qualname \<Rightarrow> bool" where
  "rejects a s c = (has_recurse a c \<and> \<not> is_relation s \<and> \<not> is_component s)"

fun is_call :: "event \<Rightarrow> bool" where
  "is_call (Call f as kw) = True"
| "is_call (MarkRefresh ob f) = False"
| "is_call (MarkRefreshRecurse ob f up down) = False"

text \<open>
  The order of section 4.2 of the specification, written after its words: all
  self-scoped normal slots by MRO level, then all self-scoped refresh markings, then the
  instance-scoped callbacks and refresh markings.
\<close>

definition emit_spec_order ::
  "Signal \<Rightarrow> Sender \<Rightarrow> obj list \<Rightarrow> key \<Rightarrow> kwargs \<Rightarrow> event list" where
  "emit_spec_order sg s args k kw =
     (case slots sg k of
        None \<Rightarrow> []
      | Some a \<Rightarrow>
          concat (map (\<lambda>c. case self_slots_dict a c of
                              None \<Rightarrow> []
                            | Some sl \<Rightarrow>
                                map (\<lambda>f. Call f (ident s # args) kw) (self_normal_slots sl))
                    (mro s))
          @ concat (map (\<lambda>c. case self_slots_dict a c of
                              None \<Rightarrow> []
                            | Some sl \<Rightarrow>
                                map (\<lambda>f. MarkRefresh (ident s) f) (self_refresh_slots sl)
                                @ map (\<lambda>r. MarkRefreshRecurse (ident s) (sr_func r)
                                            (recurse_up r) (recurse_down r))
                                    (self_refresh_slots_with_recurse sl))
                    (mro s))
          @ emit_instance a s args kw)"

subsection \<open>Example registries\<close>

text \<open>
  A sender of class \<^verbatim>\<open>m.B\<close>, a subclass of \<^verbatim>\<open>m.A\<close>, that is neither a
  \<^verbatim>\<open>Relation\<close> nor a \<^verbatim>\<open>Component\<close>, and three histories of registrations
  under the default key.
\<close>

definition plain_sender :: Sender where
  "plain_sender =
     \<lparr>ident = 7, mro = [''m.B'', ''m.A'', ''builtins.object''],
      is_relation = False, is_component = False\<rparr>"

definition two_level_regs :: "registration list" where
  "two_level_regs =
     [RegSelfSlot ''m.B'' ''B.notify'' [],
      RegSelfRefresh ''m.B'' ''B.get_text'' [],
      RegSelfSlot ''m.A'' ''A.notify'' []]"

definition late_recurse_regs :: "registration list" where
  "late_recurse_regs =
     [RegSelfSlot ''m.B'' ''B.notify'' [],
      RegSelfRefresh ''m.B'' ''B.get_text'' [],
      RegSelfRefreshWithRecurse ''m.A'' ''A.get_box'' True False []]"

definition mixed_regs :: "registration list" where
  "mixed_regs =
     [RegSelfSlot ''m.A'' ''A.notify'' [],
      RegConnect 7 ''b.fn_B'' [],
      RegConnect 7 ''other.fn'' ''moved'',
      RegConnectRefresh 7 9 ''get_text'' []]"


section \<open>Updaters (janim/anims/updater.py)\<close>

text \<open>
  Python floats are read as real numbers. A time range has the two instants
  \<^verbatim>\<open>at\<close> and \<^verbatim>\<open>end\<close>. \<^verbatim>\<open>UpdaterParams\<close> is the record handed to
  a user function; its back reference \<^verbatim>\<open>_updater\<close> and the context variable
  set by \<^verbatim>\<open>__enter__\<close> are left out, no function here reads them.
\<close>

record TimeRange =
  tr_at :: real
  tr_end :: real

record UpdaterParams =
  global_t :: real
  alpha :: real
  params_range :: TimeRange
  extra_data :: "obj option"

subsection \<open>Items\<close>

text \<open>
  Modelled from the spec: \<^verbatim>\<open>Item\<close>, \<^verbatim>\<open>Item.is_null\<close> and
  \<^verbatim>\<open>Item.walk_self_and_descendants\<close> (janim/items/item.py, janim/items/relation.py)
  are not among the sources. An item is a node of the relation graph with its identity,
  whether it is null (empty), and its ordered children; the walk is depth-first,
  pre-order, and visits each node once, keeping the first visit of an identity. With
  \<^verbatim>\<open>root_only\<close> the walk is the item alone.
\<close>

datatype Item = Item (item_id: obj) (is_null: bool) (children: "Item list")

fun descendants :: "Item \<Rightarrow> Item list" where
  "descendants (Item i n cs) = concat (map (\<lambda>c. c # descendants c) cs)"

fun first_visits :: "obj list \<Rightarrow> Item list \<Rightarrow> Item list" where
  "first_visits seen [] = []"
| "first_visits seen (x # xs) =
     (if item_id x \<in> set seen then first_visits seen xs
      else x # first_visits (item_id x # seen) xs)"

definition walk_self_and_descendants :: "Item \<Rightarrow> bool \<Rightarrow> Item list" where
  "walk_self_and_descendants it root_only =
     (if root_only then [it] else first_visits [] (it # descendants it))"

subsection \<open>Effects on the timeline, the stacks and the items\<close>

text \<open>
  \<^verbatim>\<open>AnimStack\<close>, \<^verbatim>\<open>ItemAnimation\<close> and the timeline are not among the sources:
  a call into them is an event, in the order of the calls. Items are named by their
  identity, and the stack of an item is \<^verbatim>\<open>timeline.item_appearances[item].stack\<close>.
\<close>

record Sub_DataUpdater =
  sub_item :: Item
  sub_func :: func
  sub_extra_data :: "obj option"
  sub_lag_ratio :: real
  index :: int
  count :: int
  sub_show_at_begin :: bool
  sub_hide_at_end :: bool

datatype visibility = Hide | Show

datatype uevent =
  NewSub Sub_DataUpdater
  | TransferParams obj
  | Finalize obj
  | RestoreComputed obj real bool bool
  | DetectChange obj real bool
  | AddRenderCallback TimeRange
  | Schedule real visibility obj
  | Become obj Item

text \<open>
  \<^verbatim>\<open>NewSub u\<close>: the constructor call \<^verbatim>\<open>_DataUpdater(...)\<close>;
  \<^verbatim>\<open>TransferParams i\<close> and \<^verbatim>\<open>Finalize i\<close>: \<^verbatim>\<open>transfer_params(self)\<close> and
  \<^verbatim>\<open>finalize()\<close> on the sub-updater of item \<^verbatim>\<open>i\<close>;
  \<^verbatim>\<open>RestoreComputed i t r l\<close>: \<^verbatim>\<open>item.restore(stack.compute(t, r, get_at_left=l))\<close>;
  \<^verbatim>\<open>DetectChange i t f\<close>: \<^verbatim>\<open>stack.detect_change(item, t, force=f)\<close>;
  \<^verbatim>\<open>AddRenderCallback r\<close>:
  \<^verbatim>\<open>timeline.add_additional_render_calls_callback(r, self.render_calls_callback)\<close>;
  \<^verbatim>\<open>Schedule t Hide i\<close>: \<^verbatim>\<open>timeline.schedule(t, item.hide)\<close>, and likewise for
  \<^verbatim>\<open>item.show\<close>; \<^verbatim>\<open>Become i x\<close>: \<^verbatim>\<open>item.become(x)\<close>.
\<close>

subsection \<open>DataUpdater\<close>

record DataUpdater =
  du_item :: Item
  du_func :: func
  du_extra :: "Item \<Rightarrow> obj option"
  du_lag_ratio :: real
  du_show_at_begin :: bool
  du_hide_at_end :: bool
  du_become_at_end :: bool
  skip_null_items :: bool
  root_only :: bool
  du_t_range :: TimeRange

text \<open>The list comprehension at the head of \<^verbatim>\<open>DataUpdater._time_fixed\<close>.\<close>

definition du_items :: "DataUpdater \<Rightarrow> Item list" where
  "du_items d =
     filter (\<lambda>item. \<not> skip_null_items d \<or> \<not> is_null item)
       (walk_self_and_descendants (du_item d) (root_only d))"

text \<open>
  The loop \<^verbatim>\<open>for i, item in enumerate(items)\<close>, over the pairs of
  \<^verbatim>\<open>enumerate\<close>, with the events made so far.
\<close>

fun du_loop :: "DataUpdater \<Rightarrow> int \<Rightarrow> (nat \<times> Item) list \<Rightarrow> uevent list \<Rightarrow> uevent list" where
  "du_loop d n [] evs = evs"
| "du_loop d n ((i, item) # rest) evs =
     (let sub_updater =
            \<lparr>sub_item = item, sub_func = du_func d, sub_extra_data = du_extra d item,
             sub_lag_ratio = du_lag_ratio d, index = int i, count = n,
             sub_show_at_begin = du_show_at_begin d, sub_hide_at_end = du_hide_at_end d\<rparr>;
          evs1 = evs @ [NewSub sub_updater, TransferParams (item_id item),
                        Finalize (item_id item)];
          evs2 = (if du_become_at_end d
                  then evs1 @ [RestoreComputed (item_id item) (tr_end (du_t_range d)) True True,
                               DetectChange (item_id item) (tr_end (du_t_range d)) True]
                  else evs1)
      in du_loop d n rest evs2)"

definition DataUpdater_time_fixed :: "DataUpdater \<Rightarrow> uevent list" where
  "DataUpdater_time_fixed d =
     (let items = du_items d;
          n = int (length items)
      in du_loop d n (enumerate 0 items) [])"

text \<open>
  Modelled from the spec: \<^verbatim>\<open>clip\<close> (janim/utils/simple_functions.py) is not among
  the sources; it bounds a value to the interval between its second and third argument.
\<close>

definition clip :: "real \<Rightarrow> real \<Rightarrow> real \<Rightarrow> real" where
  "clip a min_a max_a = (if a < min_a then min_a else if a > max_a then max_a else a)"

definition get_sub_alpha :: "Sub_DataUpdater \<Rightarrow> real \<Rightarrow> real" where
  "get_sub_alpha u a =
     (let lag_ratio = sub_lag_ratio u;
          full_length = of_int (count u - 1) * lag_ratio + 1;
          val = a * full_length;
          lower = of_int (index u) * lag_ratio
      in clip (val - lower) 0 1)"

subsection \<open>GroupUpdater\<close>

text \<open>
  The \<^verbatim>\<open>GroupUpdater\<close> object is shared by its \<^verbatim>\<open>_GroupUpdater\<close>
  sub-updaters, which write its flag \<^verbatim>\<open>applied\<close>. The detached copy
  \<^verbatim>\<open>self.data\<close> is a store: the state of each node of the copy, under the identity
  of the node. The user function changes the copy in place, so it is a function from
  the copy before to the copy after; it is taken to return. \<^verbatim>\<open>gu_alpha_on\<close>
  stands for \<^verbatim>\<open>Animation.get_alpha_on_global_t\<close>, not among the sources.
  \<^verbatim>\<open>invoked\<close> is not a field of the source: it records each call of the user
  function, with the copy and the parameters it was given.
\<close>

record 'st GroupUpdater =
  gu_func :: "(obj \<rightharpoonup> 'st) \<Rightarrow> UpdaterParams \<Rightarrow> (obj \<rightharpoonup> 'st)"
  gu_t_range :: TimeRange
  gu_alpha_on :: "real \<Rightarrow> real"
  gu_data :: "obj \<rightharpoonup> 'st"
  applied :: bool
  invoked :: "((obj \<rightharpoonup> 'st) \<times> UpdaterParams) list"

definition group_params :: "'st GroupUpdater \<Rightarrow> real \<Rightarrow> UpdaterParams" where
  "group_params g t =
     \<lparr>global_t = t, alpha = gu_alpha_on g t, params_range = gu_t_range g, extra_data = None\<rparr>"

definition apply_for_group :: "'st GroupUpdater \<Rightarrow> real \<Rightarrow> 'st GroupUpdater" where
  "apply_for_group g t =
     (if applied g then g
      else let params = group_params g t
           in g\<lparr>gu_data := gu_func g (gu_data g) params,
                invoked := invoked g @ [(gu_data g, params)],
                applied := True\<rparr>)"

text \<open>
  \<^verbatim>\<open>_GroupUpdater.pre_apply(data, p)\<close> of the sub-updater whose node of the copy
  has identity \<^verbatim>\<open>i\<close>: the flag is reset and the node takes the state \<^verbatim>\<open>data\<close>.
  \<^verbatim>\<open>_GroupUpdater.apply(data, p)\<close> returns the state that \<^verbatim>\<open>data\<close> is
  restored to.
\<close>

definition pre_apply :: "'st GroupUpdater \<Rightarrow> obj \<Rightarrow> 'st \<Rightarrow> 'st GroupUpdater" where
  "pre_apply g i d = g\<lparr>applied := False, gu_data := (gu_data g)(i \<mapsto> d)\<rparr>"

definition sub_apply ::
  "'st GroupUpdater \<Rightarrow> obj \<Rightarrow> 'st \<Rightarrow> real \<Rightarrow> 'st GroupUpdater \<times> 'st" where
  "sub_apply g i d t =
     (let g' = apply_for_group g t
      in (g', case gu_data g' i of None \<Rightarrow> d | Some st \<Rightarrow> st))"

subsection \<open>ItemUpdater\<close>

text \<open>
  What a user function returns is an item or something else, of which only the text of
  \<^verbatim>\<open>str\<close> is kept. The user function is any callable. The standard library
  decides what \<^verbatim>\<open>inspect.getfile(func)\<close> and
  \<^verbatim>\<open>inspect.getsourcelines(func)[1]\<close> do with it, so a callable comes with the
  outcome of each of the two calls: the value returned, or the exception raised.
  \<^verbatim>\<open>inspect.getfile\<close> raises \<^verbatim>\<open>TypeError\<close> for a
  \<^verbatim>\<open>functools.partial\<close> object, an instance with \<^verbatim>\<open>__call__\<close> and a
  builtin; \<^verbatim>\<open>inspect.getsourcelines\<close> raises \<^verbatim>\<open>OSError\<close> when the source
  cannot be read, as for a function made by \<^verbatim>\<open>exec\<close>.
\<close>

datatype pyval = ItemVal Item | OtherVal string

record UserFn =
  fn_call :: "UpdaterParams \<Rightarrow> pyval"
  fn_getfile :: "error + string"
  fn_getsourcelines :: "error + nat"

record ItemUpdater =
  iu_func :: UserFn
  iu_item :: "Item option"
  hide_at_begin :: bool
  show_at_end :: bool
  iu_become_at_end :: bool
  iu_t_range :: TimeRange

text \<open>The decimal text of a number, as \<^verbatim>\<open>str.format\<close> writes a line number.\<close>

definition digit_char :: "nat \<Rightarrow> char" where
  "digit_char n = ''0123456789'' ! n"

fun string_of_nat :: "nat \<Rightarrow> string" where
  "string_of_nat n =
     (if n < 10 then [digit_char n] else string_of_nat (n div 10) @ [digit_char (n mod 10)])"

declare string_of_nat.simps [simp del]

text \<open>
  A format string is its literal pieces and its replacement fields, here
  \<^verbatim>\<open>{ret}\<close>, \<^verbatim>\<open>{file}\<close> and \<^verbatim>\<open>{lineno}\<close>;
  \<^verbatim>\<open>str.format\<close> puts the arguments in the place of the fields.
  \<^verbatim>\<open>return_type_msgid\<close> is the format string written in
  \<^verbatim>\<open>ItemUpdater.call\<close>.
\<close>

datatype piece = Lit string | FieldRet | FieldFile | FieldLineno

fun fill :: "string \<Rightarrow> string \<Rightarrow> nat \<Rightarrow> piece \<Rightarrow> string" where
  "fill ret file lineno (Lit t) = t"
| "fill ret file lineno FieldRet = ret"
| "fill ret file lineno FieldFile = file"
| "fill ret file lineno FieldLineno = string_of_nat lineno"

definition format_pieces :: "piece list \<Rightarrow> string \<Rightarrow> string \<Rightarrow> nat \<Rightarrow> string" where
  "format_pieces t ret file lineno = concat (map (fill ret file lineno) t)"

definition return_type_msgid :: "piece list" where
  "return_type_msgid =
     [Lit ''The function passed to ItemUpdater must return an item, but got '', FieldRet,
      Lit '' instead, defined in '', FieldFile, Lit '':'', FieldLineno]"

text \<open>
  \<^verbatim>\<open>ItemUpdater.call\<close>. The catalogue \<^verbatim>\<open>_ = get_local_strings('updater')\<close>
  (janim/locale/i18n.py) is not among the sources: it is the parameter
  \<^verbatim>\<open>catalogue\<close>, from the format string of the source to the one of the locale
  (the same one when there is no translation). The arguments of \<^verbatim>\<open>format\<close>
  are evaluated from left to right, \<^verbatim>\<open>inspect.getfile\<close> before
  \<^verbatim>\<open>inspect.getsourcelines\<close>, and an exception of either leaves
  \<^verbatim>\<open>call\<close> before the \<^verbatim>\<open>UpdaterError\<close> is made.
\<close>

definition ItemUpdater_call ::
  "(piece list \<Rightarrow> piece list) \<Rightarrow> ItemUpdater \<Rightarrow> UpdaterParams \<Rightarrow> error + Item" where
  "ItemUpdater_call catalogue u p =
     (case fn_call (iu_func u) p of
        ItemVal it \<Rightarrow> Inr it
      | OtherVal shown \<Rightarrow>
          (case fn_getfile (iu_func u) of
             Inl e \<Rightarrow> Inl e
           | Inr file \<Rightarrow>
               (case fn_getsourcelines (iu_func u) of
                  Inl e \<Rightarrow> Inl e
                | Inr lineno \<Rightarrow>
                    Inl (UpdaterError
                           (format_pieces (catalogue return_type_msgid) shown file lineno)))))"

text \<open>
  \<^verbatim>\<open>ItemUpdater._time_fixed\<close>. \<^verbatim>\<open>Item.become\<close> is not among the sources: the
  item as it is after \<^verbatim>\<open>self.item.become(ret)\<close> is given by the parameter
  \<^verbatim>\<open>become\<close>. The catalogue is handed on to \<^verbatim>\<open>call\<close>.
\<close>

definition ItemUpdater_time_fixed ::
  "(piece list \<Rightarrow> piece list) \<Rightarrow> (Item \<Rightarrow> Item \<Rightarrow> Item) \<Rightarrow> ItemUpdater
     \<Rightarrow> uevent list \<times> (error + unit)" where
  "ItemUpdater_time_fixed catalogue become u =
     (let r = iu_t_range u;
          evs = [AddRenderCallback r]
      in case iu_item u of
           None \<Rightarrow> (evs, Inr ())
         | Some item \<Rightarrow>
             (let evs1 = (if hide_at_begin u
                          then evs @ [Schedule (tr_at r) Hide (item_id item)] else evs);
                  evs2 = (if show_at_end u
                          then evs1 @ [Schedule (tr_end r) Show (item_id item)] else evs1)
              in if iu_become_at_end u
                 then (case ItemUpdater_call catalogue u
                              \<lparr>global_t = tr_end r, alpha = 1, params_range = r, extra_data = None\<rparr> of
                         Inl e \<Rightarrow> (evs2, Inl e)
                       | Inr ret \<Rightarrow>
                           (evs2 @ [Become (item_id item) ret]
                              @ map (\<lambda>it. DetectChange (item_id it) (tr_end r) True)
                                  (walk_self_and_descendants (become item ret) False),
                            Inr ()))
                 else (evs2, Inr ())))"

text \<open>The sub-updaters made, and the calls that restore and commit an item.\<close>

fun spawned :: "uevent list \<Rightarrow> Sub_DataUpdater list" where
  "spawned [] = []"
| "spawned (NewSub u # evs) = u # spawned evs"
| "spawned (e # evs) = spawned evs"

fun is_commit :: "uevent \<Rightarrow> bool" where
  "is_commit (RestoreComputed i t r l) = True"
| "is_commit (DetectChange i t f) = True"
| "is_commit e = False"

text \<open>The events of one round of the loop of \<^verbatim>\<open>DataUpdater._time_fixed\<close>.\<close>

definition du_step :: "DataUpdater \<Rightarrow> int \<Rightarrow> nat \<times> Item \<Rightarrow> uevent list" where
  "du_step d n p =
     [NewSub \<lparr>sub_item = snd p, sub_func = du_func d, sub_extra_data = du_extra d (snd p),
              sub_lag_ratio = du_lag_ratio d, index = int (fst p), count = n,
              sub_show_at_begin = du_show_at_begin d, sub_hide_at_end = du_hide_at_end d\<rparr>,
      TransferParams (item_id (snd p)), Finalize (item_id (snd p))]
     @ (if du_become_at_end d
        then [RestoreComputed (item_id (snd p)) (tr_end (du_t_range d)) True True,
              DetectChange (item_id (snd p)) (tr_end (du_t_range d)) True]
        else [])"

subsection \<open>Example updaters\<close>

definition leaf_a :: Item where "leaf_a = Item 2 False []"
definition leaf_null :: Item where "leaf_null = Item 3 True []"
definition leaf_b :: Item where "leaf_b = Item 4 False []"
definition group_item :: Item where "group_item = Item 1 False [leaf_a, leaf_null, leaf_b]"

definition example_du :: DataUpdater where
  "example_du =
     \<lparr>du_item = group_item, du_func = ''rotate'', du_extra = (\<lambda>x. None),
      du_lag_ratio = 1 / 4, du_show_at_begin = True, du_hide_at_end = False,
      du_become_at_end = True, skip_null_items = True, root_only = False,
      du_t_range = \<lparr>tr_at = 0, tr_end = 2\<rparr>\<rparr>"

definition example_sub :: Sub_DataUpdater where
  "example_sub =
     \<lparr>sub_item = leaf_b, sub_func = ''rotate'', sub_extra_data = None, sub_lag_ratio = 0,
      index = 2, count = 3, sub_show_at_begin = True, sub_hide_at_end = False\<rparr>"

text \<open>
  A group updater left applied by an earlier sample, whose user function sets the state
  of node 1 of the copy to 5.
\<close>

definition example_gu :: "nat GroupUpdater" where
  "example_gu =
     \<lparr>gu_func = (\<lambda>copy p. copy(1 \<mapsto> 5)), gu_t_range = \<lparr>tr_at = 0, tr_end = 2\<rparr>,
      gu_alpha_on = (\<lambda>t. t / 2), gu_data = Map.empty, applied = True, invoked = []\<rparr>"

text \<open>
  An item updater with no item and every flag set, whose user function, defined at line
  42 of \<^verbatim>\<open>scene.py\<close>, returns \<^verbatim>\<open>None\<close>. The same function wrapped in
  \<^verbatim>\<open>functools.partial\<close>, for which \<^verbatim>\<open>inspect.getfile\<close> raises, and a
  function made by \<^verbatim>\<open>exec\<close>, whose file is \<^verbatim>\<open><string>\<close> and whose source
  cannot be read.
\<close>

definition example_fn :: UserFn where
  "example_fn =
     \<lparr>fn_call = (\<lambda>p. OtherVal ''None''), fn_getfile = Inr ''scene.py'',
      fn_getsourcelines = Inr 42\<rparr>"

definition partial_fn :: UserFn where
  "partial_fn =
     \<lparr>fn_call = (\<lambda>p. OtherVal ''None''), fn_getfile = Inl TypeError,
      fn_getsourcelines = Inl TypeError\<rparr>"

definition exec_fn :: UserFn where
  "exec_fn =
     \<lparr>fn_call = (\<lambda>p. OtherVal ''None''), fn_getfile = Inr ''<string>'',
      fn_getsourcelines = Inl OSError\<rparr>"

definition example_iu :: ItemUpdater where
  "example_iu =
     \<lparr>iu_func = example_fn, iu_item = None, hide_at_begin = True, show_at_end = True,
      iu_become_at_end = True, iu_t_range = \<lparr>tr_at = 0, tr_end = 2\<rparr>\<rparr>"

definition example_params :: UpdaterParams where
  "example_params =
     \<lparr>global_t = 2, alpha = 1, params_range = \<lparr>tr_at = 0, tr_end = 2\<rparr>, extra_data = None\<rparr>"

section \<open>Properties of the signal bus\<close>

subsection \<open>The loop over the MRO in closed form\<close>

lemma emit_mro_acc:
  "emit_mro a s args kw cs evs =
     (evs @ fst (emit_mro a s args kw cs []), snd (emit_mro a s args kw cs []))"
proof (induction cs arbitrary: evs)
  case Nil
  show ?case by simp
next
  case (Cons c cs)
  show ?case
  proof (cases "self_slots_dict a c")
    case None
    then show ?thesis using Cons.IH [of evs] by simp
  next
    case (Some sl)
    show ?thesis
      using Some Cons.IH [of "evs @ level_events sl s args kw"]
        Cons.IH [of "level_events sl s args kw"]
      by simp
  qed
qed

lemma emit_mro_closed:
  "emit_mro a s args kw cs [] =
     (concat (map (class_events a s args kw) (takeWhile (\<lambda>c. \<not> rejects a s c) cs)),
      if list_ex (rejects a s) cs then Inl TypeError else Inr ())"
proof (induction cs)
  case Nil
  show ?case by simp
next
  case (Cons c cs)
  show ?case
  proof (cases "self_slots_dict a c")
    case None
    then show ?thesis using Cons.IH by (simp add: class_events_def rejects_def has_recurse_def)
  next
    case (Some sl)
    show ?thesis
      using Some Cons.IH emit_mro_acc [of a s args kw cs "level_events sl s args kw"]
      by (simp add: class_events_def rejects_def has_recurse_def)
  qed
qed

lemma emit_closed:
  "slots sg k = Some a \<Longrightarrow>
   emit sg s args k kw =
     (concat (map (class_events a s args kw) (takeWhile (\<lambda>c. \<not> rejects a s c) (mro s)))
        @ (if list_ex (rejects a s) (mro s) then [] else emit_instance a s args kw),
      if list_ex (rejects a s) (mro s) then Inl TypeError else Inr ())"
  by (simp add: emit_def emit_mro_closed)

lemma emit_unregistered: "slots sg k = None \<Longrightarrow> emit sg s args k kw = ([], Inr ())"
  by (simp add: emit_def)

lemma emit_cong: "slots sg k = slots sg' k \<Longrightarrow> emit sg s args k kw = emit sg' s args k kw"
  by (simp add: emit_def)

subsection \<open>Registrations and keys\<close>

lemma register_other_key: "reg_key r \<noteq> k \<Longrightarrow> slots (register sg r) k = slots sg k"
  by (cases r)
    (simp_all add: self_slot_def self_refresh_def self_refresh_with_recurse_def connect_def
      connect_refresh_def Let_def)

lemma get_all_slots_cong:
  "slots sg k = slots sg' k \<Longrightarrow> get_all_slots sg k = get_all_slots sg' k"
  by (simp add: get_all_slots_def)

lemma register_same_key:
  assumes "slots sg k = slots sg' k" and "reg_key r = k"
  shows "slots (register sg r) k = slots (register sg' r) k"
proof -
  note c = get_all_slots_cong [OF assms(1)]
  show ?thesis
  proof (cases r)
    case (RegSelfSlot q f k')
    then have "k' = k" using assms(2) by simp
    then show ?thesis using RegSelfSlot by (simp add: self_slot_def Let_def c)
  next
    case (RegSelfRefresh q f k')
    then have "k' = k" using assms(2) by simp
    then show ?thesis using RegSelfRefresh by (simp add: self_refresh_def Let_def c)
  next
    case (RegSelfRefreshWithRecurse q f up down k')
    then have "k' = k" using assms(2) by simp
    then show ?thesis
      using RegSelfRefreshWithRecurse by (simp add: self_refresh_with_recurse_def Let_def c)
  next
    case (RegConnect i f k')
    then have "k' = k" using assms(2) by simp
    then show ?thesis using RegConnect by (simp add: connect_def Let_def c)
  next
    case (RegConnectRefresh i ob f k')
    then have "k' = k" using assms(2) by simp
    then show ?thesis using RegConnectRefresh by (simp add: connect_refresh_def Let_def c)
  qed
qed

lemma register_cong:
  assumes "slots sg k = slots sg' k"
  shows "slots (register sg r) k = slots (register sg' r) k"
proof (cases "reg_key r = k")
  case True
  with assms show ?thesis by (rule register_same_key)
next
  case False
  then show ?thesis using assms by (simp add: register_other_key)
qed

lemma registered_filter:
  "slots sg k = slots sg' k \<Longrightarrow>
   slots (foldl register sg regs) k
     = slots (foldl register sg' (filter (\<lambda>r. reg_key r = k) regs)) k"
proof (induction regs arbitrary: sg sg')
  case Nil
  then show ?case by simp
next
  case (Cons r regs)
  show ?case
  proof (cases "reg_key r = k")
    case True
    have "slots (register sg r) k = slots (register sg' r) k"
      using Cons.prems by (rule register_cong)
    from Cons.IH [OF this] show ?thesis using True by simp
  next
    case False
    have "slots (register sg r) k = slots sg' k"
      using False Cons.prems by (simp add: register_other_key)
    from Cons.IH [OF this] show ?thesis using False by simp
  qed
qed

lemma registered_key_only:
  "slots (registered regs) k = slots (registered (filter (\<lambda>r. reg_key r = k) regs)) k"
  unfolding registered_def by (rule registered_filter) simp

lemma registered_no_key:
  assumes "\<forall>r\<in>set regs. reg_key r \<noteq> k"
  shows "slots (registered regs) k = None"
proof -
  have e: "filter (\<lambda>r. reg_key r = k) regs = []"
    using assms by (simp add: filter_empty_conv)
  show ?thesis
    by (simp add: registered_key_only [of regs k] e) (simp add: registered_def new_Signal_def)
qed

lemmas registry_defs = registered_def self_slot_def self_refresh_def
  self_refresh_with_recurse_def connect_def connect_refresh_def get_all_slots_def
  get_self_slots_def get_slots_def new_Signal_def new_AllSlots_def new_SelfSlots_def
  new_Slots_def Let_def

subsection \<open>The order of the reactions\<close>

lemma two_level_slots:
  "slots (registered two_level_regs) [] =
     Some \<lparr>self_slots_dict =
             [''m.B'' \<mapsto> \<lparr>self_normal_slots = [''B.notify''],
                          self_refresh_slots = [''B.get_text''],
                          self_refresh_slots_with_recurse = []\<rparr>,
              ''m.A'' \<mapsto> \<lparr>self_normal_slots = [''A.notify''], self_refresh_slots = [],
                          self_refresh_slots_with_recurse = []\<rparr>],
           slots_dict = Map.empty\<rparr>"
  by (simp add: two_level_regs_def registry_defs)

text \<open>
  Claim C1, as amended. An emission under a registered key walks the classes of the
  sender's MRO in order and, for each class that has an entry, runs that class's normal
  slots (sender first), then its refresh markings, then its recursive refresh markings,
  before it goes on to the next class; the walk stops at the first class whose pre-check
  raises. Only after the whole walk come the instance-scoped callbacks and then the
  instance-scoped refresh markings. So the order is by class level, not by kind of
  reaction: a refresh marking of an earlier class runs before a normal slot of a later
  class.
\<close>

theorem emit_order_by_level:
  assumes "slots sg k = Some a"
  shows "fst (emit sg s args k kw) =
           concat (map (class_events a s args kw) (takeWhile (\<lambda>c. \<not> rejects a s c) (mro s)))
           @ (if list_ex (rejects a s) (mro s) then [] else emit_instance a s args kw)
   \<and> (\<forall>c sl. self_slots_dict a c = Some sl \<longrightarrow>
         class_events a s args kw c =
           map (\<lambda>f. Call f (ident s # args) kw) (self_normal_slots sl)
           @ map (\<lambda>f. MarkRefresh (ident s) f) (self_refresh_slots sl)
           @ map (\<lambda>r. MarkRefreshRecurse (ident s) (sr_func r) (recurse_up r) (recurse_down r))
               (self_refresh_slots_with_recurse sl))
   \<and> (\<forall>c. self_slots_dict a c = None \<longrightarrow> class_events a s args kw c = [])
   \<and> (\<forall>sl. slots_dict a (ident s) = Some sl \<longrightarrow>
         emit_instance a s args kw =
           map (\<lambda>f. Call f args kw) (normal_slots sl)
           @ map (\<lambda>r. MarkRefresh (rs_obj r) (rs_func r)) (refresh_slots sl))
   \<and> (slots_dict a (ident s) = None \<longrightarrow> emit_instance a s args kw = [])"
  by (simp add: emit_closed [OF assms] class_events_def level_events_def emit_instance_def)

text \<open>
  The theorem at a sender of class \<^verbatim>\<open>m.B\<close> whose base class \<^verbatim>\<open>m.A\<close> has a
  normal slot too.
\<close>

theorem emit_order_by_level_witness:
  "slots (registered two_level_regs) [] \<noteq> None
   \<and> fst (emit (registered two_level_regs) plain_sender [] [] [])
       = [Call ''B.notify'' [7] [], MarkRefresh 7 ''B.get_text'', Call ''A.notify'' [7] []]"
  using emit_order_by_level [OF two_level_slots, of plain_sender "[]" "[]"]
  by (simp add: two_level_slots plain_sender_def class_events_def level_events_def
      emit_instance_def rejects_def has_recurse_def)

text \<open>
  Claim C1 as it is written fails there: the refresh marking of \<^verbatim>\<open>B.get_text\<close> runs
  before the normal slot \<^verbatim>\<open>A.notify\<close> of the later class, while the order of the
  specification puts every normal slot first.
\<close>

theorem emit_global_order_counterexample:
  "fst (emit (registered two_level_regs) plain_sender [] [] [])
     = [Call ''B.notify'' [7] [], MarkRefresh 7 ''B.get_text'', Call ''A.notify'' [7] []]
   \<and> emit_spec_order (registered two_level_regs) plain_sender [] [] []
     = [Call ''B.notify'' [7] [], Call ''A.notify'' [7] [], MarkRefresh 7 ''B.get_text'']
   \<and> fst (emit (registered two_level_regs) plain_sender [] [] [])
     \<noteq> emit_spec_order (registered two_level_regs) plain_sender [] [] []"
  by (simp add: two_level_regs_def plain_sender_def registry_defs emit_def emit_instance_def
      level_events_def emit_spec_order_def)

subsection \<open>The pre-check of recursive refresh slots\<close>

lemma late_recurse_slots:
  "slots (registered late_recurse_regs) [] =
     Some \<lparr>self_slots_dict =
             [''m.B'' \<mapsto> \<lparr>self_normal_slots = [''B.notify''],
                          self_refresh_slots = [''B.get_text''],
                          self_refresh_slots_with_recurse = []\<rparr>,
              ''m.A'' \<mapsto> \<lparr>self_normal_slots = [], self_refresh_slots = [],
                          self_refresh_slots_with_recurse =
                            [\<lparr>sr_func = ''A.get_box'', recurse_up = True, recurse_down = False\<rparr>]\<rparr>],
           slots_dict = Map.empty\<rparr>"
  by (simp add: late_recurse_regs_def registry_defs)

text \<open>
  Claim C2, as amended. When a class of the sender's MRO has a recursive refresh slot
  under the key and the sender is neither a \<^verbatim>\<open>Relation\<close> nor a
  \<^verbatim>\<open>Component\<close>, the emission fails with a type error. The error is raised when
  the walk over the MRO reaches the first such class: no reaction of that class, of a
  later class, and no instance-scoped reaction is executed, and what has been executed
  are the reactions of the classes before it. When none of those classes has an entry
  under the key, the emission fails before any slot is called and before any cache is
  marked.
\<close>

theorem emit_recurse_rejected:
  assumes "slots sg k = Some a" and "\<not> is_relation s" and "\<not> is_component s"
    and "c \<in> set (mro s)" and "has_recurse a c"
  shows "snd (emit sg s args k kw) = Inl TypeError
   \<and> fst (emit sg s args k kw) =
       concat (map (class_events a s args kw) (takeWhile (\<lambda>c. \<not> has_recurse a c) (mro s)))
   \<and> ((\<forall>c' \<in> set (takeWhile (\<lambda>c. \<not> has_recurse a c) (mro s)). self_slots_dict a c' = None)
        \<longrightarrow> fst (emit sg s args k kw) = [])"
proof -
  have r: "rejects a s = has_recurse a"
    using assms(2,3) by (simp add: rejects_def fun_eq_iff)
  have e: "list_ex (has_recurse a) (mro s)"
    using assms(4,5) by (auto simp: list_ex_iff)
  have t: "fst (emit sg s args k kw) =
       concat (map (class_events a s args kw) (takeWhile (\<lambda>c. \<not> has_recurse a c) (mro s)))"
    by (simp add: emit_closed [OF assms(1)] r e)
  have n: "(\<forall>c' \<in> set (takeWhile (\<lambda>c. \<not> has_recurse a c) (mro s)). self_slots_dict a c' = None)
        \<longrightarrow> fst (emit sg s args k kw) = []"
    by (simp add: t class_events_def)
  have "snd (emit sg s args k kw) = Inl TypeError"
    by (simp add: emit_closed [OF assms(1)] r e)
  with t n show ?thesis by blast
qed

text \<open>
  The theorem at a sender whose base class \<^verbatim>\<open>m.A\<close> has the recursive slot,
  and, for the last part, at a sender of class \<^verbatim>\<open>m.A\<close> itself.
\<close>

theorem emit_recurse_rejected_witness:
  "slots (registered late_recurse_regs) [] \<noteq> None
   \<and> \<not> is_relation plain_sender \<and> \<not> is_component plain_sender
   \<and> ''m.A'' \<in> set (mro plain_sender)
   \<and> snd (emit (registered late_recurse_regs) plain_sender [] [] []) = Inl TypeError
   \<and> fst (emit (registered late_recurse_regs) (plain_sender\<lparr>mro := [''m.A'', ''builtins.object'']\<rparr>)
        [] [] []) = []"
proof -
  let ?a = "the (slots (registered late_recurse_regs) [])"
  have s: "slots (registered late_recurse_regs) [] = Some ?a"
    by (simp add: late_recurse_slots)
  have h: "has_recurse ?a ''m.A''"
    by (simp add: late_recurse_slots has_recurse_def)
  have p: "\<not> is_relation plain_sender" "\<not> is_component plain_sender"
    "''m.A'' \<in> set (mro plain_sender)"
    by (simp_all add: plain_sender_def)
  let ?s2 = "plain_sender\<lparr>mro := [''m.A'', ''builtins.object'']\<rparr>"
  have p2: "\<not> is_relation ?s2" "\<not> is_component ?s2" "''m.A'' \<in> set (mro ?s2)"
    by (simp_all add: plain_sender_def)
  from emit_recurse_rejected [OF s p h, of "[]" "[]"]
    emit_recurse_rejected [OF s p2 h, of "[]" "[]"] h
  show ?thesis
    by (simp add: late_recurse_slots p)
qed

text \<open>
  Claim C2 as it is written fails at the first of these senders: the pre-check of
  \<^verbatim>\<open>m.A\<close> is reached after the class \<^verbatim>\<open>m.B\<close> has been served, so a
  normal slot has been called and a cache has been marked when the type error is raised.
\<close>

theorem emit_precheck_counterexample:
  "\<not> is_relation plain_sender \<and> \<not> is_component plain_sender
   \<and> emit (registered late_recurse_regs) plain_sender [] [] []
       = ([Call ''B.notify'' [7] [], MarkRefresh 7 ''B.get_text''], Inl TypeError)"
  by (simp add: late_recurse_regs_def plain_sender_def registry_defs emit_def emit_instance_def
      level_events_def)

subsection \<open>Keys\<close>

text \<open>
  Claim C4. An emission under a key is the emission of the registry that holds only
  the registrations made under exactly that key, and a registration under another key
  does not change it. When no registration was made under the key (the key is not in
  \<^verbatim>\<open>self.slots\<close>), the emission returns with no event at all, whatever the sender
  is: the test comes before the walk over the MRO and its pre-check.
\<close>

theorem emit_key_exact:
  "emit (registered regs) s args k kw
     = emit (registered (filter (\<lambda>r. reg_key r = k) regs)) s args k kw
   \<and> (reg_key r \<noteq> k \<longrightarrow> emit (register sg r) s args k kw = emit sg s args k kw)
   \<and> ((\<forall>r \<in> set regs. reg_key r \<noteq> k) \<longrightarrow> emit (registered regs) s args k kw = ([], Inr ()))
   \<and> (slots sg k = None \<longrightarrow> emit sg s args k kw = ([], Inr ()))"
proof -
  have a: "emit (registered regs) s args k kw
     = emit (registered (filter (\<lambda>r. reg_key r = k) regs)) s args k kw"
    by (rule emit_cong) (rule registered_key_only)
  have b: "reg_key r \<noteq> k \<longrightarrow> emit (register sg r) s args k kw = emit sg s args k kw"
    by (auto intro: emit_cong register_other_key)
  have c: "(\<forall>r \<in> set regs. reg_key r \<noteq> k) \<longrightarrow> emit (registered regs) s args k kw = ([], Inr ())"
    by (auto intro: emit_unregistered registered_no_key)
  have d: "slots sg k = None \<longrightarrow> emit sg s args k kw = ([], Inr ())"
    by (simp add: emit_unregistered)
  from a b c d show ?thesis by blast
qed

theorem emit_key_exact_witness:
  "emit (registered mixed_regs) plain_sender [5] ''moved'' []
     = emit (registered [RegConnect 7 ''other.fn'' ''moved'']) plain_sender [5] ''moved'' []
   \<and> emit (registered mixed_regs) plain_sender [5] ''moved'' [] = ([Call ''other.fn'' [5] []], Inr ())
   \<and> map reg_key mixed_regs = [[], [], ''moved'', []]
   \<and> emit (registered mixed_regs) plain_sender [5] ''resized'' [] = ([], Inr ())"
proof -
  have f: "filter (\<lambda>r. reg_key r = ''moved'') mixed_regs = [RegConnect 7 ''other.fn'' ''moved'']"
    by (simp add: mixed_regs_def)
  have n: "\<forall>r \<in> set mixed_regs. reg_key r \<noteq> ''resized''"
    by (simp add: mixed_regs_def)
  have e: "emit (registered [RegConnect 7 ''other.fn'' ''moved'']) plain_sender [5] ''moved'' []
             = ([Call ''other.fn'' [5] []], Inr ())"
    by (simp add: plain_sender_def registry_defs emit_def emit_instance_def)
  have m: "emit (registered mixed_regs) plain_sender [5] ''moved'' []
             = emit (registered [RegConnect 7 ''other.fn'' ''moved'']) plain_sender [5] ''moved'' []"
    using emit_key_exact [of mixed_regs plain_sender "[5]" "''moved''" "[]"] by (simp add: f)
  have r: "emit (registered mixed_regs) plain_sender [5] ''resized'' [] = ([], Inr ())"
    using emit_key_exact [of mixed_regs plain_sender "[5]" "''resized''" "[]"] n by blast
  have ks: "map reg_key mixed_regs = [[], [], ''moved'', []]"
    by (simp add: mixed_regs_def)
  from m r e ks show ?thesis by simp
qed

subsection \<open>The arguments of the calls\<close>

lemma calls_class_events:
  "filter is_call (class_events a s args kw c)
     = map (\<lambda>f. Call f (ident s # args) kw) (self_normal_slots (get_self_slots a c))"
  by (cases "self_slots_dict a c")
    (simp_all add: class_events_def level_events_def get_self_slots_def new_SelfSlots_def
      filter_map o_def)

lemma calls_emit_instance:
  "filter is_call (emit_instance a s args kw)
     = map (\<lambda>f. Call f args kw) (normal_slots (get_slots a (ident s)))"
  by (cases "slots_dict a (ident s)")
    (simp_all add: emit_instance_def get_slots_def new_Slots_def filter_map o_def)

lemma calls_concat:
  "filter is_call (concat (map (class_events a s args kw) cs))
     = map (\<lambda>f. Call f (ident s # args) kw)
         (concat (map (\<lambda>c. self_normal_slots (get_self_slots a c)) cs))"
  by (induction cs) (simp_all add: calls_class_events)

lemma mixed_slots:
  "slots (registered mixed_regs) [] =
     Some \<lparr>self_slots_dict =
             [''m.A'' \<mapsto> \<lparr>self_normal_slots = [''A.notify''], self_refresh_slots = [],
                          self_refresh_slots_with_recurse = []\<rparr>],
           slots_dict =
             [7 \<mapsto> \<lparr>normal_slots = [''b.fn_B''],
                     refresh_slots = [\<lparr>rs_obj = 9, rs_func = ''get_text''\<rparr>]\<rparr>]\<rparr>"
  by (simp add: mixed_regs_def registry_defs)

text \<open>
  Claim C9. The calls of an emission are, in this order, the self-scoped normal slots
  of the classes served, each with the sender put before the extra positional
  arguments, and then (when the walk was not stopped by a pre-check) the callbacks
  connected to the sender, each with the extra positional arguments alone. The keyword
  arguments are passed on unchanged to both. A connected callback thus gets the sender
  only if the caller of \<^verbatim>\<open>emit\<close> put it among the extra arguments.
\<close>

theorem emit_call_arguments:
  assumes "slots sg k = Some a"
  shows "filter is_call (fst (emit sg s args k kw)) =
     map (\<lambda>f. Call f (ident s # args) kw)
       (concat (map (\<lambda>c. self_normal_slots (get_self_slots a c))
                  (takeWhile (\<lambda>c. \<not> rejects a s c) (mro s))))
     @ (if list_ex (rejects a s) (mro s) then []
        else map (\<lambda>f. Call f args kw) (normal_slots (get_slots a (ident s))))"
  by (simp add: emit_closed [OF assms] calls_concat calls_emit_instance)

theorem emit_call_arguments_witness:
  "slots (registered mixed_regs) [] \<noteq> None
   \<and> filter is_call (fst (emit (registered mixed_regs) plain_sender [5] [] []))
       = [Call ''A.notify'' [7, 5] [], Call ''b.fn_B'' [5] []]"
  using emit_call_arguments [OF mixed_slots, of plain_sender "[5]" "[]"]
  by (simp add: mixed_slots plain_sender_def rejects_def has_recurse_def get_self_slots_def
      get_slots_def new_SelfSlots_def)

section \<open>Properties of the updaters\<close>

subsection \<open>The loop of DataUpdater in closed form\<close>

lemma du_loop_acc: "du_loop d n ps evs = evs @ du_loop d n ps []"
proof (induction ps arbitrary: evs)
  case Nil
  show ?case by simp
next
  case (Cons p ps)
  obtain i item where p: "p = (i, item)" by (cases p)
  show ?case
    unfolding p
    apply (simp only: du_loop.simps Let_def)
    apply (subst Cons.IH)
    apply (subst (2) Cons.IH)
    apply simp
    done
qed

lemma du_loop_Cons: "du_loop d n (p # ps) [] = du_step d n p @ du_loop d n ps []"
proof -
  obtain i item where p: "p = (i, item)" by (cases p)
  show ?thesis
    unfolding p
    apply (simp only: du_loop.simps Let_def)
    apply (subst du_loop_acc)
    apply (simp add: du_step_def)
    done
qed

lemma du_loop_closed: "du_loop d n ps [] = concat (map (du_step d n) ps)"
  by (induction ps) (simp_all add: du_loop_Cons)

lemma spawned_append: "spawned (xs @ ys) = spawned xs @ spawned ys"
  by (induction xs rule: spawned.induct) simp_all

lemma spawned_steps:
  "spawned (concat (map (du_step d n) ps)) =
     map (\<lambda>p. \<lparr>sub_item = snd p, sub_func = du_func d, sub_extra_data = du_extra d (snd p),
              sub_lag_ratio = du_lag_ratio d, index = int (fst p), count = n,
              sub_show_at_begin = du_show_at_begin d, sub_hide_at_end = du_hide_at_end d\<rparr>) ps"
  by (induction ps) (simp_all add: spawned_append du_step_def)

lemma commits_steps:
  "filter is_commit (concat (map (du_step d n) ps)) =
     (if du_become_at_end d
      then concat (map (\<lambda>p. [RestoreComputed (item_id (snd p)) (tr_end (du_t_range d)) True True,
                              DetectChange (item_id (snd p)) (tr_end (du_t_range d)) True]) ps)
      else [])"
  by (induction ps) (simp_all add: du_step_def)

lemma map_snd_enum: "map (\<lambda>p. F (snd p)) (enumerate k xs) = map F xs"
  by (induction xs arbitrary: k) simp_all

lemma map_fst_enum: "map (\<lambda>p. F (fst p)) (enumerate k xs) = map F [k..<k + length xs]"
proof (induction xs arbitrary: k)
  case Nil
  show ?case by simp
next
  case (Cons x xs)
  have "[k..<k + length (x # xs)] = k # [Suc k..<Suc k + length xs]"
    by (subst upt_rec) simp
  then show ?case using Cons.IH [of "Suc k"] by simp
qed

lemma map_const_replicate: "map (\<lambda>p. c) xs = replicate (length xs) c"
  by (induction xs) simp_all

lemma ex_items: "du_items example_du = [group_item, leaf_a, leaf_b]"
  by (simp add: du_items_def example_du_def walk_self_and_descendants_def group_item_def
      leaf_a_def leaf_b_def leaf_null_def)

subsection \<open>What DataUpdater spawns and commits\<close>

text \<open>
  Claim C8. \<^verbatim>\<open>DataUpdater._time_fixed\<close> makes one \<^verbatim>\<open>_DataUpdater\<close> for
  each item of the walk over the target item (the item alone with
  \<^verbatim>\<open>root_only\<close>, the item and its descendants without), in the order of the walk,
  leaving out the null items when \<^verbatim>\<open>skip_null_items\<close> is set. The sub-updater of
  the item at position \<^verbatim>\<open>i\<close> of that list has index \<^verbatim>\<open>i\<close>, and every
  sub-updater has the length of the list as its count.
\<close>

theorem time_fixed_spawns:
  "map sub_item (spawned (DataUpdater_time_fixed d)) = du_items d
   \<and> map index (spawned (DataUpdater_time_fixed d)) = map int [0..<length (du_items d)]
   \<and> map count (spawned (DataUpdater_time_fixed d)) = replicate (length (du_items d)) (int (length (du_items d)))
   \<and> du_items d = filter (\<lambda>item. \<not> (skip_null_items d \<and> is_null item))
        (walk_self_and_descendants (du_item d) (root_only d))
   \<and> (root_only d \<longrightarrow> walk_self_and_descendants (du_item d) (root_only d) = [du_item d])
   \<and> (\<not> root_only d \<longrightarrow> walk_self_and_descendants (du_item d) (root_only d)
         = first_visits [] (du_item d # descendants (du_item d)))"
proof -
  have s: "spawned (DataUpdater_time_fixed d) =
     map (\<lambda>p. \<lparr>sub_item = snd p, sub_func = du_func d, sub_extra_data = du_extra d (snd p),
              sub_lag_ratio = du_lag_ratio d, index = int (fst p), count = int (length (du_items d)),
              sub_show_at_begin = du_show_at_begin d, sub_hide_at_end = du_hide_at_end d\<rparr>)
       (enumerate 0 (du_items d))"
    by (simp add: DataUpdater_time_fixed_def Let_def du_loop_closed spawned_steps)
  have a: "map sub_item (spawned (DataUpdater_time_fixed d)) = du_items d"
    using map_snd_enum [of "\<lambda>x. x" 0 "du_items d"] by (simp add: s o_def)
  have b: "map index (spawned (DataUpdater_time_fixed d)) = map int [0..<length (du_items d)]"
    using map_fst_enum [of int 0 "du_items d"] by (simp add: s o_def)
  have c: "map count (spawned (DataUpdater_time_fixed d))
             = replicate (length (du_items d)) (int (length (du_items d)))"
    using map_const_replicate [of "int (length (du_items d))" "enumerate 0 (du_items d)"]
    by (simp add: s o_def)
  have e: "du_items d = filter (\<lambda>item. \<not> (skip_null_items d \<and> is_null item))
        (walk_self_and_descendants (du_item d) (root_only d))"
    by (simp add: du_items_def)
  have f: "root_only d \<longrightarrow> walk_self_and_descendants (du_item d) (root_only d) = [du_item d]"
    by (simp add: walk_self_and_descendants_def)
  have g: "\<not> root_only d \<longrightarrow> walk_self_and_descendants (du_item d) (root_only d)
         = first_visits [] (du_item d # descendants (du_item d))"
    by (simp add: walk_self_and_descendants_def)
  from a b c e f g show ?thesis by blast
qed

theorem time_fixed_spawns_witness:
  "root_only (example_du\<lparr>root_only := True\<rparr>)
   \<and> map sub_item (spawned (DataUpdater_time_fixed example_du)) = [group_item, leaf_a, leaf_b]
   \<and> map index (spawned (DataUpdater_time_fixed example_du)) = [0, 1, 2]
   \<and> map count (spawned (DataUpdater_time_fixed example_du)) = [3, 3, 3]
   \<and> map sub_item (spawned (DataUpdater_time_fixed (example_du\<lparr>root_only := True\<rparr>)))
       = [group_item]"
proof -
  have r: "du_items (example_du\<lparr>root_only := True\<rparr>) = [group_item]"
    by (simp add: du_items_def example_du_def walk_self_and_descendants_def group_item_def)
  from time_fixed_spawns [of example_du] time_fixed_spawns [of "example_du\<lparr>root_only := True\<rparr>"]
  show ?thesis
    by (simp add: ex_items r)
qed

text \<open>
  Claim C7. The calls of \<^verbatim>\<open>DataUpdater._time_fixed\<close> that restore an item from
  its stack or commit it with \<^verbatim>\<open>detect_change\<close> are, when
  \<^verbatim>\<open>become_at_end\<close> is set, for each qualifying item in turn the restore to
  \<^verbatim>\<open>stack.compute(t_range.end, True, get_at_left=True)\<close> followed by
  \<^verbatim>\<open>detect_change\<close> at \<^verbatim>\<open>t_range.end\<close> with \<^verbatim>\<open>force=True\<close>; when
  \<^verbatim>\<open>become_at_end\<close> is not set there is no such call.
\<close>

theorem time_fixed_commits:
  "filter is_commit (DataUpdater_time_fixed d) =
     (if du_become_at_end d
      then concat (map (\<lambda>item. [RestoreComputed (item_id item) (tr_end (du_t_range d)) True True,
                              DetectChange (item_id item) (tr_end (du_t_range d)) True]) (du_items d))
      else [])"
  using map_snd_enum [of "\<lambda>item. [RestoreComputed (item_id item) (tr_end (du_t_range d)) True True,
                              DetectChange (item_id item) (tr_end (du_t_range d)) True]" 0 "du_items d"]
  by (simp add: DataUpdater_time_fixed_def Let_def du_loop_closed commits_steps)

theorem time_fixed_commits_witness:
  "filter is_commit (DataUpdater_time_fixed example_du)
     = [RestoreComputed 1 2 True True, DetectChange 1 2 True,
        RestoreComputed 2 2 True True, DetectChange 2 2 True,
        RestoreComputed 4 2 True True, DetectChange 4 2 True]
   \<and> filter is_commit (DataUpdater_time_fixed (example_du\<lparr>du_become_at_end := False\<rparr>)) = []"
  using time_fixed_commits [of example_du]
    time_fixed_commits [of "example_du\<lparr>du_become_at_end := False\<rparr>"]
  by (simp add: ex_items) (simp add: example_du_def group_item_def leaf_a_def leaf_b_def)

subsection \<open>The sub-alpha of a lagged item\<close>

text \<open>
  Claim C3. \<^verbatim>\<open>get_sub_alpha\<close> is the clipped value
  \<^verbatim>\<open>clip(alpha * ((count - 1) * r + 1) - i * r, 0, 1)\<close>; with a lag ratio of 0 it
  gives back the alpha it is given, for every index and every alpha from 0 to 1.
\<close>

theorem get_sub_alpha_lag_ratio:
  "get_sub_alpha u a =
     clip (a * (of_int (count u - 1) * sub_lag_ratio u + 1) - of_int (index u) * sub_lag_ratio u) 0 1
   \<and> (sub_lag_ratio u = 0 \<longrightarrow> 0 \<le> a \<longrightarrow> a \<le> 1 \<longrightarrow> get_sub_alpha u a = a)"
  by (simp add: get_sub_alpha_def Let_def clip_def)

theorem get_sub_alpha_lag_ratio_witness:
  "sub_lag_ratio example_sub = 0 \<and> (0::real) \<le> 1 / 3 \<and> (1::real) / 3 \<le> 1
   \<and> get_sub_alpha example_sub (1 / 3) = 1 / 3
   \<and> get_sub_alpha (example_sub\<lparr>sub_lag_ratio := 1 / 4\<rparr>) (1 / 3) = 0"
  using get_sub_alpha_lag_ratio [of example_sub "1 / 3"]
    get_sub_alpha_lag_ratio [of "example_sub\<lparr>sub_lag_ratio := 1 / 4\<rparr>" "1 / 3"]
  by (simp add: example_sub_def clip_def)

subsection \<open>The applied flag of GroupUpdater\<close>

lemma apply_for_group_applied: "applied g \<Longrightarrow> apply_for_group g t = g"
  by (simp add: apply_for_group_def)

lemma further_calls: "applied g \<Longrightarrow> foldl apply_for_group g ts = g"
  by (induction ts) (simp_all add: apply_for_group_applied)

text \<open>
  Claim C6. After \<^verbatim>\<open>pre_apply\<close> has reset the flag, the first
  \<^verbatim>\<open>apply_for_group\<close> calls the user function once, on the detached copy as
  \<^verbatim>\<open>pre_apply\<close> left it, stores what the function made of the copy and sets the
  flag; any number of further calls of \<^verbatim>\<open>apply_for_group\<close>, at whatever times,
  leave the whole state as it is, the record of the calls of the user function
  included.
\<close>

theorem apply_for_group_once:
  "invoked (apply_for_group (pre_apply g i d) t)
     = invoked g @ [(gu_data (pre_apply g i d), group_params g t)]
   \<and> gu_data (apply_for_group (pre_apply g i d) t)
     = gu_func g (gu_data (pre_apply g i d)) (group_params g t)
   \<and> applied (apply_for_group (pre_apply g i d) t)
   \<and> foldl apply_for_group (apply_for_group (pre_apply g i d) t) ts
     = apply_for_group (pre_apply g i d) t"
proof -
  have a: "applied (apply_for_group (pre_apply g i d) t)"
    by (simp add: apply_for_group_def pre_apply_def Let_def)
  have b: "invoked (apply_for_group (pre_apply g i d) t)
     = invoked g @ [(gu_data (pre_apply g i d), group_params g t)]"
    by (simp add: apply_for_group_def pre_apply_def Let_def group_params_def)
  have c: "gu_data (apply_for_group (pre_apply g i d) t)
     = gu_func g (gu_data (pre_apply g i d)) (group_params g t)"
    by (simp add: apply_for_group_def pre_apply_def Let_def group_params_def)
  from a b c further_calls [OF a] show ?thesis by simp
qed

theorem apply_for_group_once_witness:
  "length (invoked (apply_for_group (pre_apply example_gu 1 0) 1)) = 1
   \<and> gu_data (apply_for_group (pre_apply example_gu 1 0) 1) 1 = Some 5
   \<and> applied (apply_for_group (pre_apply example_gu 1 0) 1)
   \<and> foldl apply_for_group (apply_for_group (pre_apply example_gu 1 0) 1) [1, 3 / 2]
       = apply_for_group (pre_apply example_gu 1 0) 1"
  using apply_for_group_once [of example_gu 1 0 1 "[1, 3 / 2]"]
  by (simp add: example_gu_def pre_apply_def)

subsection \<open>ItemUpdater\<close>

text \<open>
  For a user function that \<^verbatim>\<open>inspect\<close> can place, and with the format string
  of the source, \<^verbatim>\<open>call\<close> does what its message says: it returns the item when
  the user function returned one, and otherwise raises the updater error, whose message
  ends with the file, a colon and the line number.
\<close>

lemma call_located:
  assumes "fn_getfile (iu_func u) = Inr file" and "fn_getsourcelines (iu_func u) = Inr lineno"
  shows "((\<exists>msg. ItemUpdater_call (\<lambda>t. t) u p = Inl (UpdaterError msg))
            = (\<forall>it. fn_call (iu_func u) p \<noteq> ItemVal it))
   \<and> (\<forall>e. ItemUpdater_call (\<lambda>t. t) u p = Inl e \<longrightarrow>
         (\<exists>msg. e = UpdaterError msg \<and> sublist (file @ '':'' @ string_of_nat lineno) msg))
   \<and> (\<forall>it. fn_call (iu_func u) p = ItemVal it \<longrightarrow> ItemUpdater_call (\<lambda>t. t) u p = Inr it)"
proof (cases "fn_call (iu_func u) p")
  case (ItemVal it)
  then show ?thesis by (simp add: ItemUpdater_call_def)
next
  case (OtherVal shown)
  have m: "format_pieces return_type_msgid shown file lineno
       = (''The function passed to ItemUpdater must return an item, but got '' @ shown
            @ '' instead, defined in '')
         @ (file @ '':'' @ string_of_nat lineno) @ []"
    by (simp add: format_pieces_def return_type_msgid_def)
  have "sublist (file @ '':'' @ string_of_nat lineno)
          (format_pieces return_type_msgid shown file lineno)"
    unfolding m by (rule sublist_appendI)
  then show ?thesis using OtherVal assms by (simp add: ItemUpdater_call_def)
qed

text \<open>
  Claim C5 fails on the code. The claim is that \<^verbatim>\<open>ItemUpdater.call\<close> raises the
  updater error whenever the user function returned something that is not an item, with
  the file and the line of the user function in the message. The code builds the
  message with \<^verbatim>\<open>inspect.getfile\<close> and \<^verbatim>\<open>inspect.getsourcelines\<close> before
  it raises: for a user function wrapped in \<^verbatim>\<open>functools.partial\<close> that returns
  \<^verbatim>\<open>None\<close>, \<^verbatim>\<open>call\<close> ends with the type error of
  \<^verbatim>\<open>inspect.getfile\<close>, and for one made by \<^verbatim>\<open>exec\<close> with the OS error of
  \<^verbatim>\<open>inspect.getsourcelines\<close>. In neither case is an updater error raised, whatever
  the catalogue holds.
\<close>

theorem call_uninspectable_raises:
  "fn_call partial_fn example_params = OtherVal ''None''
   \<and> ItemUpdater_call catalogue (example_iu\<lparr>iu_func := partial_fn\<rparr>) example_params
       = Inl TypeError
   \<and> ItemUpdater_call catalogue (example_iu\<lparr>iu_func := exec_fn\<rparr>) example_params
       = Inl OSError
   \<and> ItemUpdater_call (\<lambda>t. t) example_iu example_params
       = Inl (UpdaterError (''The function passed to ItemUpdater must return an item, ''
           @ ''but got None instead, defined in scene.py:42''))"
proof -
  have n: "string_of_nat 42 = ''42''"
    by (simp add: string_of_nat.simps [of 42] string_of_nat.simps [of 4] digit_char_def)
  have a: "ItemUpdater_call catalogue (example_iu\<lparr>iu_func := partial_fn\<rparr>) example_params
       = Inl TypeError"
    by (simp add: ItemUpdater_call_def partial_fn_def)
  have b: "ItemUpdater_call catalogue (example_iu\<lparr>iu_func := exec_fn\<rparr>) example_params
       = Inl OSError"
    by (simp add: ItemUpdater_call_def exec_fn_def)
  have c: "ItemUpdater_call (\<lambda>t. t) example_iu example_params
       = Inl (UpdaterError (''The function passed to ItemUpdater must return an item, ''
           @ ''but got None instead, defined in scene.py:42''))"
    by (simp add: ItemUpdater_call_def example_iu_def example_fn_def format_pieces_def
        return_type_msgid_def n)
  have d: "fn_call partial_fn example_params = OtherVal ''None''"
    by (simp add: partial_fn_def)
  from a b c d show ?thesis by blast
qed

text \<open>
  Claim C10. With \<^verbatim>\<open>item=None\<close>, \<^verbatim>\<open>ItemUpdater._time_fixed\<close> registers
  the render callback for its time range and does nothing else, whatever the three flags
  are: nothing is scheduled, the user function is not called and no item is replaced or
  committed.
\<close>

theorem time_fixed_no_item:
  "iu_item u = None \<Longrightarrow>
   ItemUpdater_time_fixed catalogue become u = ([AddRenderCallback (iu_t_range u)], Inr ())"
  by (simp add: ItemUpdater_time_fixed_def Let_def)

theorem time_fixed_no_item_witness:
  "iu_item example_iu = None
   \<and> hide_at_begin example_iu \<and> show_at_end example_iu \<and> iu_become_at_end example_iu
   \<and> ItemUpdater_time_fixed (\<lambda>t. t) (\<lambda>x y. y) example_iu
       = ([AddRenderCallback \<lparr>tr_at = 0, tr_end = 2\<rparr>], Inr ())"
proof -
  have n: "iu_item example_iu = None" by (simp add: example_iu_def)
  from time_fixed_no_item [OF n, of "\<lambda>t. t" "\<lambda>x y. y"] show ?thesis
    by (simp add: example_iu_def)
qed

end
